theory Spec2Isabelle
  imports Complex_Main
begin

section \<open>JavaScript strings and the regular expressions of the flight service\<close>

text \<open>
  A JavaScript string is modelled as a \<^typ>\<open>string\<close>; \<open>length\<close> counts its code units.
  An optional field (\<open>x?: T\<close>, which may be \<open>undefined\<close> or \<open>null\<close>) is a
  \<^typ>\<open>'a option\<close>.
\<close>

definition isUpper :: "char \<Rightarrow> bool" where
  "isUpper c = (65 \<le> (of_char c :: nat) \<and> (of_char c :: nat) \<le> 90)"

definition isLower :: "char \<Rightarrow> bool" where
  "isLower c = (97 \<le> (of_char c :: nat) \<and> (of_char c :: nat) \<le> 122)"

text \<open>The class \<open>[A-Z]\<close> under the flag \<open>i\<close>: the ASCII letters of both cases.\<close>

definition isLetter :: "char \<Rightarrow> bool" where
  "isLetter c = (isUpper c \<or> isLower c)"

text \<open>The class \<open>[0-9]\<close>.\<close>

definition isDigit :: "char \<Rightarrow> bool" where
  "isDigit c = (48 \<le> (of_char c :: nat) \<and> (of_char c :: nat) \<le> 57)"

text \<open>The class \<open>[A-Z0-9]\<close> under the flag \<open>i\<close>.\<close>

definition isAlnum :: "char \<Rightarrow> bool" where
  "isAlnum c = (isLetter c \<or> isDigit c)"

text \<open>The literal \<open>N\<close> under the flag \<open>i\<close>.\<close>

definition isN :: "char \<Rightarrow> bool" where
  "isN c = (c = CHR ''N'' \<or> c = CHR ''n'')"

definition isDash :: "char \<Rightarrow> bool" where
  "isDash c = (c = CHR ''-'')"

definition toLowerCase :: "string \<Rightarrow> string" where
  "toLowerCase s = map (\<lambda>c. if isUpper c then char_of ((of_char c :: nat) + 32) else c) s"

definition toUpperCase :: "string \<Rightarrow> string" where
  "toUpperCase s = map (\<lambda>c. if isLower c then char_of ((of_char c :: nat) - 32) else c) s"

text \<open>
  The patterns of the service use character classes, sequencing, \<open>?\<close> and bounded
  repetition \<open>{m,n}\<close> only. \<open>remainders r s\<close> lists what is left of \<open>s\<close> after each
  way of matching \<open>r\<close> at its start; a pattern anchored by \<open>^\<close> and \<open>$\<close> matches when
  nothing can be left.
\<close>

datatype regex = Eps | Sym "char \<Rightarrow> bool" | Seq regex regex | Opt regex

fun remainders :: "regex \<Rightarrow> string \<Rightarrow> string list" where
  "remainders Eps s = [s]"
| "remainders (Sym p) [] = []"
| "remainders (Sym p) (c # cs) = (if p c then [cs] else [])"
| "remainders (Seq a b) s = concat (map (remainders b) (remainders a s))"
| "remainders (Opt a) s = remainders a s @ [s]"

definition test :: "regex \<Rightarrow> string \<Rightarrow> bool" where
  "test r s = ([] \<in> set (remainders r s))"

fun exactly :: "nat \<Rightarrow> regex \<Rightarrow> regex" where
  "exactly 0 r = Eps"
| "exactly (Suc n) r = Seq r (exactly n r)"

fun atMost_rx :: "nat \<Rightarrow> regex \<Rightarrow> regex" where
  "atMost_rx 0 r = Eps"
| "atMost_rx (Suc n) r = Opt (Seq r (atMost_rx n r))"

text \<open>\<open>between m n r\<close> is \<open>r{m,n}\<close>.\<close>

definition between :: "nat \<Rightarrow> nat \<Rightarrow> regex \<Rightarrow> regex" where
  "between m n r = Seq (exactly m r) (atMost_rx (n - m) r)"

text \<open>\<open>/^[A-Z]{2,3}[0-9]{1,4}[A-Z]?$/i\<close>\<close>

definition isFlightNumber :: "string \<Rightarrow> bool" where
  "isFlightNumber identifier =
     test (Seq (between 2 3 (Sym isLetter))
            (Seq (between 1 4 (Sym isDigit)) (Opt (Sym isLetter)))) identifier"

text \<open>\<open>/^[A-Z]-?[A-Z0-9]{1,5}$/i\<close> or \<open>/^N[0-9]{1,5}[A-Z]{0,2}$/i\<close>\<close>

definition isTailNumber :: "string \<Rightarrow> bool" where
  "isTailNumber identifier =
     (test (Seq (Sym isLetter) (Seq (Opt (Sym isDash)) (between 1 5 (Sym isAlnum)))) identifier
      \<or> test (Seq (Sym isN) (Seq (between 1 5 (Sym isDigit)) (between 0 2 (Sym isLetter))))
           identifier)"

text \<open>\<open>identifier.replace(/[^A-Z0-9]/gi, '')\<close>\<close>

definition cleanIdentifier :: "string \<Rightarrow> string" where
  "cleanIdentifier identifier = filter isAlnum identifier"

section \<open>Status transitions\<close>

definition updateTriggers :: "string list" where
  "updateTriggers =
     [''scheduled'', ''active'', ''landed'', ''cancelled'', ''incident'', ''diverted'']"

definition shouldSendUpdate :: "string \<Rightarrow> string \<Rightarrow> bool" where
  "shouldSendUpdate currentStatus previousStatus =
     (currentStatus \<noteq> previousStatus \<and> currentStatus \<in> set updateTriggers)"

section \<open>The API usage tracker\<close>

text \<open>
  A \<open>Date\<close> is read through \<open>getMonth\<close>, \<open>getFullYear\<close> and \<open>getTime\<close> (milliseconds).
  The ISO strings the tracker stores (\<open>lastReset\<close>, \<open>timestamp\<close>) are represented by
  the instant they print.
\<close>

record Date =
  getMonth :: int
  getFullYear :: int
  getTime :: int

record ApiRequest =
  timestamp :: int
  rtype :: string
  flightId :: "string option"

record UsageData =
  month :: int
  year :: int
  count :: int
  requests :: "ApiRequest list"
  lastReset :: int

text \<open>
  The tracker object: the limit parsed from the environment and the usage data. Writing
  the usage file is not modelled: \<open>saveUsage\<close> catches its own failure, and the
  in-memory data is what every accessor reads. Each accessor below takes the clock
  \<open>now\<close> of the call and returns its result with the tracker after the call; the clock
  reads within one synchronous call are taken to give the same date.
\<close>

record ApiUsageTracker =
  monthlyLimit :: int
  usage :: UsageData

definition resetUsage :: "Date \<Rightarrow> ApiUsageTracker \<Rightarrow> ApiUsageTracker" where
  "resetUsage now tr =
     tr\<lparr>usage := \<lparr>month = getMonth now, year = getFullYear now, count = 0,
                   requests = [], lastReset = getTime now\<rparr>\<rparr>"

definition isNewMonth :: "Date \<Rightarrow> ApiUsageTracker \<Rightarrow> bool" where
  "isNewMonth now tr =
     (month (usage tr) \<noteq> getMonth now \<or> year (usage tr) \<noteq> getFullYear now)"

definition canMakeRequest :: "Date \<Rightarrow> ApiUsageTracker \<Rightarrow> bool \<times> ApiUsageTracker" where
  "canMakeRequest now tr =
     (let tr1 = (if isNewMonth now tr then resetUsage now tr else tr)
      in (count (usage tr1) < monthlyLimit tr1, tr1))"

definition getRemainingRequests :: "Date \<Rightarrow> ApiUsageTracker \<Rightarrow> int \<times> ApiUsageTracker" where
  "getRemainingRequests now tr =
     (let tr1 = (if isNewMonth now tr then resetUsage now tr else tr)
      in (max 0 (monthlyLimit tr1 - count (usage tr1)), tr1))"

text \<open>
  A JavaScript number that results from a division: the quotient is taken exactly (the
  rounding of doubles is not modelled), and division by zero gives an infinity or NaN.
\<close>

datatype number = Finite rat | PlusInfinity | MinusInfinity | NaN

definition divide_number :: "int \<Rightarrow> int \<Rightarrow> number" where
  "divide_number a b =
     (if b = 0 then (if a = 0 then NaN else if 0 < a then PlusInfinity else MinusInfinity)
      else Finite (of_int a / of_int b))"

definition times_100 :: "number \<Rightarrow> number" where
  "times_100 x = (case x of Finite q \<Rightarrow> Finite (q * 100) | other \<Rightarrow> other)"

definition getUsagePercentage :: "Date \<Rightarrow> ApiUsageTracker \<Rightarrow> number \<times> ApiUsageTracker" where
  "getUsagePercentage now tr =
     (let tr1 = (if isNewMonth now tr then resetUsage now tr else tr)
      in (times_100 (divide_number (count (usage tr1)) (monthlyLimit tr1)), tr1))"

text \<open>
  \<open>recordRequest\<close> returns nothing; its warnings go to the console only. The percentage
  it reads for them is a call of \<open>getUsagePercentage\<close>, whose tracker is kept.
\<close>

definition recordRequest ::
  "Date \<Rightarrow> string \<Rightarrow> string option \<Rightarrow> ApiUsageTracker \<Rightarrow> ApiUsageTracker" where
  "recordRequest now ty fid tr =
     (let tr1 = (if isNewMonth now tr then resetUsage now tr else tr);
          u1 = usage tr1;
          request = \<lparr>timestamp = getTime now, rtype = ty, flightId = fid\<rparr>;
          rs = requests u1 @ [request];
          rs' = (if length rs > 100 then drop (length rs - 100) rs else rs);
          tr2 = tr1\<lparr>usage := u1\<lparr>count := count u1 + 1, requests := rs'\<rparr>\<rparr>
      in snd (getUsagePercentage now tr2))"

section \<open>The flight service\<close>

text \<open>
  The records of \<open>types.ts\<close>. Field names that several interfaces share carry a
  prefix: \<open>fi_\<close> for \<open>FlightIdentifier\<close>, \<open>al_\<close> for \<open>AirlineInfo\<close>, \<open>ap_\<close> for
  \<open>AirportInfo\<close>, \<open>ac_\<close> for \<open>AircraftInfo\<close>, \<open>fa_\<close> for \<open>FlightAwareFlight\<close>.
\<close>

record FlightIdentifier =
  fi_iata :: "string option"
  fi_icao :: "string option"
  fi_number :: "string option"
  fi_flight_number :: "string option"

record AirlineInfo =
  al_name :: "string option"
  al_iata :: "string option"
  al_icao :: "string option"

record AirportInfo =
  airport :: "string option"
  ap_iata :: "string option"
  ap_icao :: "string option"
  scheduled :: "string option"
  estimated :: "string option"
  actual :: "string option"
  gate :: "string option"
  terminal :: "string option"

record AircraftInfo =
  registration :: "string option"
  ac_type :: "string option"

record NormalizedFlight =
  flight :: FlightIdentifier
  flight_status :: string
  airline :: "AirlineInfo option"
  departure :: "AirportInfo option"
  arrival :: "AirportInfo option"
  aircraft :: "AircraftInfo option"
  progress_percent :: "int option"
  route :: "string option"
  cancelled :: "bool option"
  diverted :: "bool option"
  searchType :: "string option"
  faFlightId :: "string option"

text \<open>The \<open>origin\<close> and \<open>destination\<close> objects of an upstream flight.\<close>

record Place =
  name :: "string option"
  code_iata :: "string option"
  code_icao :: "string option"

record FlightAwareFlight =
  ident_iata :: "string option"
  ident_icao :: "string option"
  ident :: "string option"
  flight_number :: "string option"
  status :: "string option"
  operator :: "string option"
  operator_iata :: "string option"
  operator_icao :: "string option"
  origin :: "Place option"
  destination :: "Place option"
  scheduled_out :: "string option"
  estimated_out :: "string option"
  actual_out :: "string option"
  scheduled_in :: "string option"
  estimated_in :: "string option"
  actual_in :: "string option"
  gate_origin :: "string option"
  terminal_origin :: "string option"
  gate_destination :: "string option"
  terminal_destination :: "string option"
  fa_registration :: "string option"
  aircraft_type :: "string option"
  fa_progress_percent :: "int option"
  fa_route :: "string option"
  fa_cancelled :: "bool option"
  fa_diverted :: "bool option"
  fa_flight_id :: "string option"

text \<open>\<open>a ?? b\<close>: the left operand unless it is \<open>undefined\<close> or \<open>null\<close>.\<close>

definition nullish :: "'a option \<Rightarrow> 'a \<Rightarrow> 'a" where
  "nullish a b = (case a of Some v \<Rightarrow> v | None \<Rightarrow> b)"

text \<open>
  \<open>statusMap[status ?? ''] ?? (status ?? 'unknown').toLowerCase()\<close>. The keys that a
  plain object inherits (\<open>constructor\<close>, \<open>toString\<close>, ...) are not modelled.
\<close>

definition mapFlightAwareStatus :: "string option \<Rightarrow> string" where
  "mapFlightAwareStatus st =
     nullish
       (map_of [(''Scheduled'', ''scheduled''), (''Active'', ''active''),
                (''Completed'', ''landed''), (''Cancelled'', ''cancelled''),
                (''Diverted'', ''diverted'')] (nullish st []))
       (toLowerCase (nullish st ''unknown''))"

definition normalizeFlightData :: "FlightAwareFlight \<Rightarrow> string \<Rightarrow> NormalizedFlight" where
  "normalizeFlightData f st =
     \<lparr>flight = \<lparr>fi_iata = ident_iata f, fi_icao = ident_icao f, fi_number = ident f,
                fi_flight_number = flight_number f\<rparr>,
      flight_status = mapFlightAwareStatus (status f),
      airline = Some \<lparr>al_name = Some (nullish (operator f) ''Unknown Airline''),
                      al_iata = operator_iata f, al_icao = operator_icao f\<rparr>,
      departure = Some
        \<lparr>airport = Some (nullish (Option.bind (origin f) name)
                           (nullish (Option.bind (origin f) code_iata) ''Unknown'')),
         ap_iata = Option.bind (origin f) code_iata,
         ap_icao = Option.bind (origin f) code_icao,
         scheduled = scheduled_out f, estimated = estimated_out f, actual = actual_out f,
         gate = gate_origin f, terminal = terminal_origin f\<rparr>,
      arrival = Some
        \<lparr>airport = Some (nullish (Option.bind (destination f) name)
                           (nullish (Option.bind (destination f) code_iata) ''Unknown'')),
         ap_iata = Option.bind (destination f) code_iata,
         ap_icao = Option.bind (destination f) code_icao,
         scheduled = scheduled_in f, estimated = estimated_in f, actual = actual_in f,
         gate = gate_destination f, terminal = terminal_destination f\<rparr>,
      aircraft = Some \<lparr>registration = fa_registration f, ac_type = aircraft_type f\<rparr>,
      progress_percent = fa_progress_percent f,
      route = fa_route f,
      cancelled = fa_cancelled f,
      diverted = fa_diverted f,
      searchType = Some st,
      faFlightId = fa_flight_id f\<rparr>"

text \<open>
  The errors \<open>getFlightData\<close> throws, by message: \<open>Flight identifier too short\<close>,
  \<open>API usage limit reached (used/limit)\<close>, \<open>Invalid flight identifier format\<close>,
  \<open>API authentication failed\<close>, \<open>API rate limit exceeded\<close>, and a failure of the HTTP
  client with its response status (none when there was no response).
\<close>

datatype error =
    IdentifierTooShort
  | QuotaExceeded int int
  | InvalidFormat
  | AuthenticationFailed
  | RateLimitExceeded
  | TransportError "nat option"

text \<open>What a GET of the HTTP client gives: the flights of the response, or a failure.\<close>

datatype api_result = Response "FlightAwareFlight list" | Failure "nat option"

type_synonym api = "string \<Rightarrow> api_result"

type_synonym lookup = "(error + NormalizedFlight option) \<times> ApiUsageTracker"

definition getFlightByNumber :: "api \<Rightarrow> Date \<Rightarrow> ApiUsageTracker \<Rightarrow> string \<Rightarrow> lookup" where
  "getFlightByNumber get now tr flightNumber =
     (case get (''/flights/'' @ flightNumber) of
        Failure s \<Rightarrow> (Inl (TransportError s), tr)
      | Response flights \<Rightarrow>
          (let tr1 = recordRequest now ''flight_lookup'' (Some flightNumber) tr
           in case flights of
                f # _ \<Rightarrow> (Inr (Some (normalizeFlightData f ''flight_number'')), tr1)
              | [] \<Rightarrow> (Inr None, tr1)))"

definition getFlightByTailNumber :: "api \<Rightarrow> Date \<Rightarrow> ApiUsageTracker \<Rightarrow> string \<Rightarrow> lookup" where
  "getFlightByTailNumber get now tr tailNumber =
     (let response =
            (case get (''/flights/'' @ tailNumber) of
               Failure s \<Rightarrow>
                 (if s = Some 400 then get (''/aircraft/'' @ tailNumber @ ''/flights'')
                  else Failure s)
             | Response flights \<Rightarrow> Response flights)
      in case response of
           Failure s \<Rightarrow> (Inl (TransportError s), tr)
         | Response flights \<Rightarrow>
             (let tr1 = recordRequest now ''tail_lookup'' (Some tailNumber) tr
              in case flights of
                   f # _ \<Rightarrow> (Inr (Some (normalizeFlightData f ''tail_number'')), tr1)
                 | [] \<Rightarrow> (Inr None, tr1)))"

text \<open>
  The fields of \<open>getUsageStatus()\<close> that the quota error prints. They are read after the
  rollover checks of \<open>getRemainingRequests\<close> and \<open>getUsagePercentage\<close>.
\<close>

definition getUsageStatus_used_limit ::
  "Date \<Rightarrow> ApiUsageTracker \<Rightarrow> (int \<times> int) \<times> ApiUsageTracker" where
  "getUsageStatus_used_limit now tr =
     (let tr1 = snd (getRemainingRequests now tr);
          tr2 = snd (getUsagePercentage now tr1)
      in ((count (usage tr2), monthlyLimit tr2), tr2))"

text \<open>The \<open>try\<close> block of \<open>getFlightData\<close>.\<close>

definition getFlightData_try :: "api \<Rightarrow> Date \<Rightarrow> ApiUsageTracker \<Rightarrow> string \<Rightarrow> lookup" where
  "getFlightData_try get now tr identifier =
     (if identifier = [] \<or> length identifier < 2 then (Inl IdentifierTooShort, tr)
      else
        let (ok, tr1) = canMakeRequest now tr in
        if \<not> ok then
          (let ((used, limit), tr2) = getUsageStatus_used_limit now tr1
           in (Inl (QuotaExceeded used limit), tr2))
        else
          let clean = cleanIdentifier identifier in
          if length clean < 2 then (Inl InvalidFormat, tr1)
          else
            let isFlightNum = isFlightNumber clean;
                isTailNum = isTailNumber clean
            in if \<not> isFlightNum \<and> \<not> isTailNum then (Inl InvalidFormat, tr1)
               else if isFlightNum then getFlightByNumber get now tr1 clean
               else if isTailNum then getFlightByTailNumber get now tr1 clean
               else (Inr None, tr1))"

text \<open>The \<open>catch\<close> block of \<open>getFlightData\<close>: statuses 401 and 429 are renamed.\<close>

definition getFlightData_catch :: "error \<Rightarrow> error" where
  "getFlightData_catch e =
     (case e of
        TransportError s \<Rightarrow>
          (if s = Some 401 then AuthenticationFailed
           else if s = Some 429 then RateLimitExceeded
           else TransportError s)
      | other \<Rightarrow> other)"

text \<open>Whatever the \<open>try\<close> block throws passes through the \<open>catch\<close> block.\<close>

definition getFlightData :: "api \<Rightarrow> Date \<Rightarrow> ApiUsageTracker \<Rightarrow> string \<Rightarrow> lookup" where
  "getFlightData get now tr identifier =
     apfst (map_sum getFlightData_catch id) (getFlightData_try get now tr identifier)"

text \<open>
  The private-aviation decision of \<open>formatFlightMessage\<close> and \<open>getUpdateMessage\<close>:
  \<open>airline = flight.airline?.name\<close>, then \<open>!airline || airline === 'Unknown Airline'\<close>.
  A string is falsy when it is missing or empty.
\<close>

definition isPrivateAviation :: "NormalizedFlight \<Rightarrow> bool" where
  "isPrivateAviation fl =
     (let airline = Option.bind (airline fl) al_name
      in (airline = None \<or> airline = Some []) \<or> airline = Some ''Unknown Airline'')"

section \<open>The flight monitor\<close>

text \<open>
  A tracked flight; its fields \<open>flight\<close> and \<open>identifier\<close> are called \<open>snapshot\<close> and
  \<open>flightIdentifier\<close> here. Times are in
  milliseconds, as \<open>getTime()\<close> gives them.
\<close>

record TrackedFlight =
  snapshot :: NormalizedFlight
  channelId :: string
  userId :: string
  flightIdentifier :: string
  lastStatus :: string
  lastUpdated :: int
  updateCount :: int
  hasLanded :: bool

text \<open>
  \<open>trackedFlights\<close> is a \<open>Map\<close>, which iterates in insertion order: a list of keys with
  their entries, the keys distinct.
\<close>

type_synonym registry = "(string \<times> TrackedFlight) list"

text \<open>
  What the monitor reads from outside during one cycle: the answers of the flight service
  to \<open>canMakeRequest()\<close> and \<open>shouldLimitTracking()\<close>, the time \<open>currentTime\<close> at the start,
  and for the entry under each key what \<open>getFlightData(tracking.identifier)\<close> gives (the
  service may answer two entries with one identifier differently) and the time read by
  \<open>new Date()\<close> once that answer has been processed. No command handler changes the
  registry while the cycle runs.
\<close>

record Env =
  svcCanMakeRequest :: bool
  svcShouldLimitTracking :: bool
  currentTime :: int
  svcGetFlightData :: "string \<Rightarrow> string \<Rightarrow> error + NormalizedFlight option"
  fetchedAt :: "string \<Rightarrow> int"

text \<open>A call \<open>sendFlightUpdate(channelId, flight, updateType)\<close>; it catches its own failures.\<close>

type_synonym update = "string \<times> NormalizedFlight \<times> string"

text \<open>
  The call \<open>this.flightService.getFlightData(identifier)\<close> made for the entry under
  \<open>key\<close>: what the service answers, and the call itself, which goes to the list of
  fetches of the cycle.
\<close>

definition callGetFlightData ::
  "Env \<Rightarrow> string \<Rightarrow> string \<Rightarrow> (error + NormalizedFlight option) \<times> string list" where
  "callGetFlightData env key searched = (svcGetFlightData env key searched, [searched])"

text \<open>
  \<open>checkSingleFlight\<close> gives the entry as it leaves it, the fetches it has made and the
  updates it has sent.
\<close>

definition checkSingleFlight ::
  "Env \<Rightarrow> string \<Rightarrow> TrackedFlight \<Rightarrow> TrackedFlight \<times> string list \<times> update list" where
  "checkSingleFlight env key tracking =
     (let (answer, fetched) = callGetFlightData env key (flightIdentifier tracking)
      in case answer of
        Inl e \<Rightarrow> (tracking, fetched, [])
      | Inr None \<Rightarrow> (tracking, fetched, [])
      | Inr (Some updatedFlight) \<Rightarrow>
          (let currentStatus = flight_status updatedFlight;
               previousStatus = lastStatus tracking;
               (t1, sent) =
                 (if shouldSendUpdate currentStatus previousStatus then
                    (tracking\<lparr>lastStatus := currentStatus,
                              updateCount := updateCount tracking + 1,
                              hasLanded := (if currentStatus = ''landed'' then True
                                            else hasLanded tracking)\<rparr>,
                     [(channelId tracking, updatedFlight, currentStatus)])
                  else (tracking, []))
           in (t1\<lparr>lastUpdated := fetchedAt env key, snapshot := updatedFlight\<rparr>,
               fetched, sent)))"

text \<open>
  The loop over \<open>trackedFlights.entries()\<close>: the registry it leaves and \<open>flightsToCheck\<close>.
\<close>

fun scanEntries :: "int \<Rightarrow> registry \<Rightarrow> registry \<times> registry" where
  "scanEntries now [] = ([], [])"
| "scanEntries now ((key, tracking) # rest) =
     (let (kept, flightsToCheck) = scanEntries now rest
      in if hasLanded tracking \<and> updateCount tracking > 10 then (kept, flightsToCheck)
         else if now - lastUpdated tracking > 5 * 60 * 1000
              then ((key, tracking) # kept, (key, tracking) # flightsToCheck)
              else ((key, tracking) # kept, flightsToCheck))"

text \<open>The entry under \<open>key\<close> after \<open>checkSingleFlight\<close> has changed its object.\<close>

definition setEntry :: "string \<Rightarrow> TrackedFlight \<Rightarrow> registry \<Rightarrow> registry" where
  "setEntry key tracking reg = map (\<lambda>(k, v). if k = key then (k, tracking) else (k, v)) reg"

text \<open>
  The checks of \<open>flightsToCheck\<close>: the registry afterwards, the fetches that the calls of
  \<open>checkSingleFlight\<close> have made, in the order of the calls, and the updates they have
  sent, listed in the order of \<open>flightsToCheck\<close> (the checks run concurrently; each
  changes its own entry only).
\<close>

fun runChecks :: "Env \<Rightarrow> registry \<Rightarrow> registry \<Rightarrow> registry \<times> string list \<times> update list" where
  "runChecks env [] reg = (reg, [], [])"
| "runChecks env ((key, tracking) # rest) reg =
     (let (tracking', fetched, sent) = checkSingleFlight env key tracking;
          (reg', fetches, sents) = runChecks env rest (setEntry key tracking' reg)
      in (reg', fetched @ fetches, sent @ sents))"

text \<open>
  \<open>sort\<close> is stable and its comparator \<open>b.lastUpdated - a.lastUpdated\<close> orders by
  descending \<open>lastUpdated\<close>.
\<close>

definition checkFlightUpdates :: "Env \<Rightarrow> registry \<Rightarrow> registry \<times> string list \<times> update list" where
  "checkFlightUpdates env trackedFlights =
     (if \<not> svcCanMakeRequest env then (trackedFlights, [], [])
      else
        let shouldLimit = svcShouldLimitTracking env;
            (kept, flightsToCheck) = scanEntries (currentTime env) trackedFlights;
            flightsToCheck' =
              (if shouldLimit \<and> length flightsToCheck > 2
               then take 2 (sort_key (\<lambda>c. - lastUpdated (snd c)) flightsToCheck)
               else flightsToCheck)
        in runChecks env flightsToCheck' kept)"

section \<open>Example inputs and auxiliary functions\<close>

text \<open>Trackers and a clock: November 2026, a tracker last written in October.\<close>

definition november :: Date where
  "november = \<lparr>getMonth = 10, getFullYear = 2026, getTime = 1793577600000\<rparr>"

definition lastMonthOverLimit :: ApiUsageTracker where
  "lastMonthOverLimit =
     \<lparr>monthlyLimit = 1000,
      usage = \<lparr>month = 9, year = 2026, count = 1001, requests = [], lastReset = 0\<rparr>\<rparr>"

definition thisMonthFresh :: ApiUsageTracker where
  "thisMonthFresh =
     \<lparr>monthlyLimit = 1000,
      usage = \<lparr>month = 10, year = 2026, count = 0, requests = [], lastReset = 0\<rparr>\<rparr>"

definition thisMonthExhausted :: ApiUsageTracker where
  "thisMonthExhausted =
     \<lparr>monthlyLimit = 1000,
      usage = \<lparr>month = 10, year = 2026, count = 1000, requests = [], lastReset = 0\<rparr>\<rparr>"

text \<open>
  An HTTP client without a network, and one that answers every path with one flight.
\<close>

definition noNetwork :: api where
  "noNetwork path = Failure None"

definition blankFlight :: FlightAwareFlight where
  "blankFlight =
     \<lparr>ident_iata = None, ident_icao = None, ident = None, flight_number = None,
      status = None, operator = None, operator_iata = None, operator_icao = None,
      origin = None, destination = None,
      scheduled_out = None, estimated_out = None, actual_out = None,
      scheduled_in = None, estimated_in = None, actual_in = None,
      gate_origin = None, terminal_origin = None,
      gate_destination = None, terminal_destination = None,
      fa_registration = None, aircraft_type = None, fa_progress_percent = None,
      fa_route = None, fa_cancelled = None, fa_diverted = None, fa_flight_id = None\<rparr>"

definition oneFlight :: api where
  "oneFlight path = Response [blankFlight\<lparr>status := Some ''Active''\<rparr>]"

definition emptyOperator :: FlightAwareFlight where
  "emptyOperator = blankFlight\<lparr>operator := Some ''''\<rparr>"

definition scheduledFlight :: NormalizedFlight where
  "scheduledFlight =
     normalizeFlightData (blankFlight\<lparr>ident_iata := Some ''UA400'', status := Some ''Scheduled''\<rparr>)
       ''flight_number''"

definition activeFlight :: NormalizedFlight where
  "activeFlight =
     normalizeFlightData (blankFlight\<lparr>ident_iata := Some ''UA400'', status := Some ''Active''\<rparr>)
       ''flight_number''"

text \<open>
  Tracked entries, flight services and registries for the monitor.
\<close>

definition entry :: "string \<Rightarrow> int \<Rightarrow> int \<Rightarrow> bool \<Rightarrow> TrackedFlight" where
  "entry searched updated n landed =
     \<lparr>snapshot = scheduledFlight, channelId = ''C1'', userId = ''U1'',
      flightIdentifier = searched, lastStatus = ''scheduled'', lastUpdated = updated,
      updateCount = n, hasLanded = landed\<rparr>"

definition notFound :: "string \<Rightarrow> string \<Rightarrow> error + NormalizedFlight option" where
  "notFound key searched = Inr None"

definition nowActive :: "string \<Rightarrow> string \<Rightarrow> error + NormalizedFlight option" where
  "nowActive key searched = Inr (Some activeFlight)"

definition failing :: "string \<Rightarrow> string \<Rightarrow> error + NormalizedFlight option" where
  "failing key searched = Inl (TransportError (Some 500))"

definition tenMinutes :: "string \<Rightarrow> int" where
  "tenMinutes key = 600000"

definition quietEnv :: Env where
  "quietEnv = \<lparr>svcCanMakeRequest = True, svcShouldLimitTracking = False, currentTime = 1000,
               svcGetFlightData = notFound, fetchedAt = tenMinutes\<rparr>"

definition pausedEnv :: Env where
  "pausedEnv = \<lparr>svcCanMakeRequest = False, svcShouldLimitTracking = True, currentTime = 600000,
                svcGetFlightData = nowActive, fetchedAt = tenMinutes\<rparr>"

definition criticalEnv :: Env where
  "criticalEnv = \<lparr>svcCanMakeRequest = True, svcShouldLimitTracking = True, currentTime = 600000,
                  svcGetFlightData = nowActive, fetchedAt = tenMinutes\<rparr>"

definition notFoundEnv :: Env where
  "notFoundEnv = \<lparr>svcCanMakeRequest = True, svcShouldLimitTracking = False, currentTime = 600000,
                  svcGetFlightData = notFound, fetchedAt = tenMinutes\<rparr>"

definition failingEnv :: Env where
  "failingEnv = \<lparr>svcCanMakeRequest = True, svcShouldLimitTracking = False, currentTime = 600000,
                 svcGetFlightData = failing, fetchedAt = tenMinutes\<rparr>"

definition landedPair :: registry where
  "landedPair = [(''UA400_C1'', entry ''UA400'' 0 11 True), (''DL1_C1'', entry ''DL1'' 0 10 True)]"

definition fiveStale :: registry where
  "fiveStale =
     [(''AA1_C1'', entry ''AA1'' 3 0 False), (''AA2_C1'', entry ''AA2'' 1 0 False),
      (''AA3_C1'', entry ''AA3'' 5 0 False), (''AA4_C1'', entry ''AA4'' 2 0 False),
      (''AA5_C1'', entry ''AA5'' 4 0 False)]"

definition staleLanded :: registry where
  "staleLanded =
     [(''AA1_C1'', entry ''AA1'' 1 0 False), (''AA2_C1'', entry ''AA2'' 2 0 False),
      (''AA3_C1'', entry ''AA3'' 3 11 True)]"

text \<open>
  The least number of characters a pattern consumes.
\<close>

fun minlen :: "regex \<Rightarrow> nat" where
  "minlen Eps = 0"
| "minlen (Sym p) = 1"
| "minlen (Seq a b) = minlen a + minlen b"
| "minlen (Opt a) = 0"

section \<open>Properties\<close>

subsection \<open>Status transitions\<close>

text \<open>
  C1. \<open>shouldSendUpdate currentStatus previousStatus\<close> is true exactly when the two
  statuses differ and the current one is one of the six trigger values scheduled, active,
  landed, cancelled, incident, diverted. So a change to the non-trigger value unknown
  gives false, and an unchanged status gives false.
\<close>

theorem shouldSendUpdate_iff:
  "shouldSendUpdate currentStatus previousStatus =
     (currentStatus \<noteq> previousStatus \<and>
      (currentStatus = ''scheduled'' \<or> currentStatus = ''active'' \<or>
       currentStatus = ''landed'' \<or> currentStatus = ''cancelled'' \<or>
       currentStatus = ''incident'' \<or> currentStatus = ''diverted''))
   \<and> shouldSendUpdate ''unknown'' previousStatus = False
   \<and> shouldSendUpdate currentStatus currentStatus = False"
  by (auto simp add: shouldSendUpdate_def updateTriggers_def)

subsection \<open>The usage tracker\<close>

lemma isNewMonth_resetUsage: "\<not> isNewMonth now (resetUsage now tr)"
  by (simp add: isNewMonth_def resetUsage_def)

lemma canMakeRequest_settled: "\<not> isNewMonth now (snd (canMakeRequest now tr))"
  by (simp add: canMakeRequest_def Let_def isNewMonth_resetUsage)

lemma getUsageStatus_settled:
  "\<not> isNewMonth now tr \<Longrightarrow>
     getUsageStatus_used_limit now tr = ((count (usage tr), monthlyLimit tr), tr)"
  by (simp add: getUsageStatus_used_limit_def getRemainingRequests_def getUsagePercentage_def)

lemma canMakeRequest_fresh: "fst (canMakeRequest november thisMonthFresh)"
  by (simp add: canMakeRequest_def isNewMonth_def november_def thisMonthFresh_def)

lemma canMakeRequest_exhausted:
  "\<not> fst (canMakeRequest november thisMonthExhausted)"
  "count (usage (snd (canMakeRequest november thisMonthExhausted))) = 1000"
  "monthlyLimit thisMonthExhausted = 1000"
  by (simp_all add: canMakeRequest_def isNewMonth_def november_def thisMonthExhausted_def)

text \<open>
  C5. Each of the accessors \<open>canMakeRequest\<close>, \<open>getRemainingRequests\<close>,
  \<open>getUsagePercentage\<close> and \<open>recordRequest\<close> starts with the month rollover: when the
  stored month or year differs from the clock's, the accessor answers from the reset
  state (count zero, empty log, month and year of the clock) and leaves that state behind;
  \<open>recordRequest\<close> then counts its own request, the first of the month. A tracker with
  count 1001 and limit 1000 stored in the previous month may make a request.
\<close>

theorem rollover_before_result:
  assumes "month (usage tr) \<noteq> getMonth now \<or> year (usage tr) \<noteq> getFullYear now"
  shows "canMakeRequest now tr = (0 < monthlyLimit tr, resetUsage now tr)
       \<and> getRemainingRequests now tr = (max 0 (monthlyLimit tr), resetUsage now tr)
       \<and> getUsagePercentage now tr
           = (times_100 (divide_number 0 (monthlyLimit tr)), resetUsage now tr)
       \<and> recordRequest now ty fid tr = recordRequest now ty fid (resetUsage now tr)
       \<and> count (usage (recordRequest now ty fid tr)) = 1
       \<and> requests (usage (recordRequest now ty fid tr))
           = [\<lparr>timestamp = getTime now, rtype = ty, flightId = fid\<rparr>]
       \<and> count (usage (resetUsage now tr)) = 0
       \<and> requests (usage (resetUsage now tr)) = []
       \<and> month (usage (resetUsage now tr)) = getMonth now
       \<and> year (usage (resetUsage now tr)) = getFullYear now"
proof -
  from assms have new: "isNewMonth now tr" by (simp add: isNewMonth_def)
  have a: "canMakeRequest now tr = (0 < monthlyLimit tr, resetUsage now tr)"
    using new by (simp add: canMakeRequest_def resetUsage_def)
  have b: "getRemainingRequests now tr = (max 0 (monthlyLimit tr), resetUsage now tr)"
    using new by (simp add: getRemainingRequests_def resetUsage_def)
  have c: "getUsagePercentage now tr
           = (times_100 (divide_number 0 (monthlyLimit tr)), resetUsage now tr)"
    using new by (simp add: getUsagePercentage_def resetUsage_def)
  have d: "recordRequest now ty fid tr = recordRequest now ty fid (resetUsage now tr)"
    using new by (simp add: recordRequest_def isNewMonth_resetUsage)
  have e: "count (usage (recordRequest now ty fid (resetUsage now tr))) = 1
         \<and> requests (usage (recordRequest now ty fid (resetUsage now tr)))
           = [\<lparr>timestamp = getTime now, rtype = ty, flightId = fid\<rparr>]"
    by (simp add: recordRequest_def getUsagePercentage_def Let_def isNewMonth_def resetUsage_def)
  have f: "count (usage (resetUsage now tr)) = 0 \<and> requests (usage (resetUsage now tr)) = []
       \<and> month (usage (resetUsage now tr)) = getMonth now
       \<and> year (usage (resetUsage now tr)) = getFullYear now"
    by (simp add: resetUsage_def)
  from a b c d e f show ?thesis by simp
qed

theorem rollover_before_result_witness:
  "count (usage lastMonthOverLimit) = 1001 \<and> monthlyLimit lastMonthOverLimit = 1000
   \<and> month (usage lastMonthOverLimit) = 9 \<and> getMonth november = 10
   \<and> fst (canMakeRequest november lastMonthOverLimit) = True
   \<and> fst (getRemainingRequests november lastMonthOverLimit) = 1000
   \<and> fst (getUsagePercentage november lastMonthOverLimit) = Finite 0
   \<and> count (usage (recordRequest november ''flight_lookup'' None lastMonthOverLimit)) = 1"
proof -
  have h: "month (usage lastMonthOverLimit) \<noteq> getMonth november
           \<or> year (usage lastMonthOverLimit) \<noteq> getFullYear november"
    by (simp add: lastMonthOverLimit_def november_def)
  note t = rollover_before_result [OF h, of "''flight_lookup''" None]
  have l: "monthlyLimit lastMonthOverLimit = 1000"
    and c: "count (usage lastMonthOverLimit) = 1001"
    and m: "month (usage lastMonthOverLimit) = 9" "getMonth november = 10"
    by (simp_all add: lastMonthOverLimit_def november_def)
  from t have "canMakeRequest november lastMonthOverLimit
      = (0 < monthlyLimit lastMonthOverLimit, resetUsage november lastMonthOverLimit)"
    by (rule conjunct1)
  then have a: "fst (canMakeRequest november lastMonthOverLimit) = True"
    by (simp add: l)
  from t have "getRemainingRequests november lastMonthOverLimit
      = (max 0 (monthlyLimit lastMonthOverLimit), resetUsage november lastMonthOverLimit)"
    by blast
  then have b: "fst (getRemainingRequests november lastMonthOverLimit) = 1000"
    by (simp add: l)
  from t have "getUsagePercentage november lastMonthOverLimit
      = (times_100 (divide_number 0 (monthlyLimit lastMonthOverLimit)),
         resetUsage november lastMonthOverLimit)"
    by blast
  then have p: "fst (getUsagePercentage november lastMonthOverLimit) = Finite 0"
    by (simp add: l times_100_def divide_number_def)
  from t have r: "count (usage (recordRequest november ''flight_lookup'' None lastMonthOverLimit)) = 1"
    by blast
  from l c m a b p r show ?thesis by simp
qed

subsection \<open>Patterns\<close>

lemma remainders_length:
  "x \<in> set (remainders r s) \<Longrightarrow> length x + minlen r \<le> length s"
proof (induction r arbitrary: s x)
  case Eps
  then show ?case by simp
next
  case (Sym p)
  then show ?case by (cases s) (auto split: if_splits)
next
  case (Seq a b)
  from Seq.prems obtain y where y: "y \<in> set (remainders a s)" and x: "x \<in> set (remainders b y)"
    by auto
  from Seq.IH(1) [OF y] Seq.IH(2) [OF x] show ?case by simp
next
  case (Opt a)
  then show ?case by fastforce
qed

lemma test_minlen: "test r s \<Longrightarrow> minlen r \<le> length s"
  using remainders_length [of "[]" r s] by (simp add: test_def)

lemma isFlightNumber_length: "isFlightNumber s \<Longrightarrow> 3 \<le> length s"
  unfolding isFlightNumber_def
  by (drule test_minlen) (simp add: between_def eval_nat_numeral)

lemma isTailNumber_length: "isTailNumber s \<Longrightarrow> 2 \<le> length s"
  unfolding isTailNumber_def
  by (auto dest!: test_minlen simp add: between_def eval_nat_numeral)

lemma digits_not_classified:
  "cleanIdentifier ''12345'' = ''12345''"
  "\<not> isFlightNumber ''12345''" "\<not> isTailNumber ''12345''"
  by code_simp+

lemma tail_only:
  "cleanIdentifier ''N300DG'' = ''N300DG''" "\<not> isFlightNumber ''N300DG''" "isTailNumber ''N300DG''"
  by code_simp+

subsection \<open>Validation and lookup in the flight service\<close>

lemma getFlightData_quota_exhausted:
  assumes "2 \<le> length identifier" "\<not> fst (canMakeRequest now tr)"
  shows "fst (getFlightData get now tr identifier)
         = Inl (QuotaExceeded (count (usage (snd (canMakeRequest now tr)))) (monthlyLimit tr))"
proof -
  obtain ok tr1 where c: "canMakeRequest now tr = (ok, tr1)" by (cases "canMakeRequest now tr")
  with assms(2) have nok: "\<not> ok" by simp
  from c have "\<not> isNewMonth now tr1" using canMakeRequest_settled [of now tr] by simp
  then have u: "getUsageStatus_used_limit now tr1 = ((count (usage tr1), monthlyLimit tr1), tr1)"
    by (rule getUsageStatus_settled)
  from c have m: "monthlyLimit tr1 = monthlyLimit tr"
    by (auto simp add: canMakeRequest_def Let_def resetUsage_def split: if_splits)
  from assms(1) have ne: "identifier \<noteq> []" "\<not> length identifier < 2" by auto
  show ?thesis
    using ne c nok u m
    by (simp add: getFlightData_def getFlightData_try_def getFlightData_catch_def)
qed

lemma getFlightData_invalid:
  assumes "2 \<le> length identifier" "fst (canMakeRequest now tr)"
    and "\<not> isFlightNumber (cleanIdentifier identifier)"
    and "\<not> isTailNumber (cleanIdentifier identifier)"
  shows "fst (getFlightData get now tr identifier) = Inl InvalidFormat"
proof -
  obtain ok tr1 where c: "canMakeRequest now tr = (ok, tr1)" by (cases "canMakeRequest now tr")
  with assms(2) have ok: "ok" by simp
  from assms(1) have ne: "identifier \<noteq> []" "\<not> length identifier < 2" by auto
  show ?thesis
    using ne c ok assms(3,4)
    by (simp add: getFlightData_def getFlightData_try_def getFlightData_catch_def Let_def)
qed

lemma getFlightData_classified:
  assumes "2 \<le> length identifier" "fst (canMakeRequest now tr)"
    and "isFlightNumber (cleanIdentifier identifier) \<or> isTailNumber (cleanIdentifier identifier)"
  shows "getFlightData get now tr identifier =
           apfst (map_sum getFlightData_catch id)
             (if isFlightNumber (cleanIdentifier identifier)
              then getFlightByNumber get now (snd (canMakeRequest now tr)) (cleanIdentifier identifier)
              else getFlightByTailNumber get now (snd (canMakeRequest now tr)) (cleanIdentifier identifier))"
proof -
  obtain ok tr1 where c: "canMakeRequest now tr = (ok, tr1)" by (cases "canMakeRequest now tr")
  with assms(2) have ok: "ok" by simp
  from assms(1) have ne: "identifier \<noteq> []" "\<not> length identifier < 2" by auto
  from assms(3) have len: "\<not> length (cleanIdentifier identifier) < 2"
    using isFlightNumber_length isTailNumber_length by fastforce
  show ?thesis
    using ne c ok len assms(3)
    by (auto simp add: getFlightData_def getFlightData_try_def Let_def)
qed

lemma map_sum_id_Inr: "map_sum g id y = Inr v \<longleftrightarrow> y = Inr v"
  by (cases y) auto

lemma getFlightByNumber_searchType:
  "fst (getFlightByNumber get now tr n) = Inr (Some f) \<Longrightarrow> searchType f = Some ''flight_number''"
  by (auto simp add: getFlightByNumber_def Let_def normalizeFlightData_def
           split: api_result.splits list.splits)

lemma getFlightByTailNumber_searchType:
  "fst (getFlightByTailNumber get now tr n) = Inr (Some f) \<Longrightarrow> searchType f = Some ''tail_number''"
  by (auto simp add: getFlightByTailNumber_def Let_def normalizeFlightData_def
           split: api_result.splits list.splits if_splits)

lemma getFlightData_raw_short:
  "length identifier < 2 \<Longrightarrow> fst (getFlightData get now tr identifier) = Inl IdentifierTooShort"
  by (simp add: getFlightData_def getFlightData_try_def getFlightData_catch_def)

lemma getFlightByNumber_error:
  "fst (getFlightByNumber get now tr n) = Inl e \<Longrightarrow> \<exists>s. e = TransportError s"
  by (auto simp add: getFlightByNumber_def Let_def split: api_result.splits list.splits)

lemma getFlightByTailNumber_error:
  "fst (getFlightByTailNumber get now tr n) = Inl e \<Longrightarrow> \<exists>s. e = TransportError s"
  by (auto simp add: getFlightByTailNumber_def Let_def
           split: api_result.splits list.splits if_splits)

lemma getFlightData_catch_TransportError:
  "getFlightData_catch (TransportError s) \<noteq> IdentifierTooShort"
  by (simp add: getFlightData_catch_def)

lemma caught_lookup_not_short:
  assumes "\<And>e. fst r = Inl e \<Longrightarrow> \<exists>s. e = TransportError s"
  shows "fst (apfst (map_sum getFlightData_catch id) r) \<noteq> Inl IdentifierTooShort"
proof (cases "fst r")
  case (Inl e)
  with assms obtain s where "e = TransportError s" by blast
  with Inl show ?thesis by (simp add: getFlightData_catch_TransportError)
next
  case (Inr v)
  then show ?thesis by simp
qed

lemma getFlightData_raw_long:
  assumes "2 \<le> length identifier"
  shows "fst (getFlightData get now tr identifier) \<noteq> Inl IdentifierTooShort"
proof (cases "fst (canMakeRequest now tr)")
  case False
  with assms show ?thesis by (simp add: getFlightData_quota_exhausted)
next
  case True
  show ?thesis
  proof (cases "isFlightNumber (cleanIdentifier identifier)
                \<or> isTailNumber (cleanIdentifier identifier)")
    case False
    with assms True show ?thesis by (simp add: getFlightData_invalid)
  next
    case classified: True
    show ?thesis
      unfolding getFlightData_classified [OF assms True classified]
      by (rule caught_lookup_not_short)
         (auto dest: getFlightByNumber_error getFlightByTailNumber_error split: if_splits)
  qed
qed

text \<open>
  C6 (amended). An identifier of at least two characters whose cleaned form has fewer
  than two characters is rejected with \<open>InvalidFormat\<close> when the tracker allows a request,
  and with \<open>QuotaExceeded\<close> when it does not; it is never rejected as too short:
  \<open>getFlightData\<close> answers \<open>IdentifierTooShort\<close> exactly for the raw identifiers of
  fewer than two characters.
\<close>

theorem cleaned_too_short_error:
  "(2 \<le> length identifier \<and> length (cleanIdentifier identifier) < 2 \<longrightarrow>
      fst (getFlightData get now tr identifier)
        = (if fst (canMakeRequest now tr) then Inl InvalidFormat
           else Inl (QuotaExceeded (count (usage (snd (canMakeRequest now tr))))
                       (monthlyLimit tr))))
   \<and> ((fst (getFlightData get now tr identifier) = Inl IdentifierTooShort)
        = (length identifier < 2))"
proof (intro conjI impI)
  assume a: "2 \<le> length identifier \<and> length (cleanIdentifier identifier) < 2"
  show "fst (getFlightData get now tr identifier)
        = (if fst (canMakeRequest now tr) then Inl InvalidFormat
           else Inl (QuotaExceeded (count (usage (snd (canMakeRequest now tr))))
                       (monthlyLimit tr)))"
  proof (cases "fst (canMakeRequest now tr)")
    case True
    from a have "\<not> isFlightNumber (cleanIdentifier identifier)"
      and "\<not> isTailNumber (cleanIdentifier identifier)"
      using isFlightNumber_length [of "cleanIdentifier identifier"]
        isTailNumber_length [of "cleanIdentifier identifier"] by auto
    with a True show ?thesis by (simp add: getFlightData_invalid)
  next
    case False
    with a show ?thesis by (simp add: getFlightData_quota_exhausted)
  qed
next
  show "(fst (getFlightData get now tr identifier) = Inl IdentifierTooShort)
        = (length identifier < 2)"
  proof (cases "length identifier < 2")
    case True
    then show ?thesis by (simp add: getFlightData_raw_short)
  next
    case False
    then show ?thesis by (simp add: getFlightData_raw_long)
  qed
qed

theorem cleaned_too_short_error_witness:
  "fst (getFlightData noNetwork november thisMonthFresh ''--'') = Inl InvalidFormat
   \<and> fst (getFlightData noNetwork november thisMonthExhausted ''--'')
       = Inl (QuotaExceeded 1000 1000)
   \<and> fst (getFlightData noNetwork november thisMonthFresh ''U'') = Inl IdentifierTooShort
   \<and> fst (getFlightData oneFlight november thisMonthFresh ''UA400'') \<noteq> Inl IdentifierTooShort"
proof -
  have l: "2 \<le> length ''--''" by simp
  have c: "length (cleanIdentifier ''--'') < 2"
    by (simp add: cleanIdentifier_def isAlnum_def isLetter_def isUpper_def isLower_def isDigit_def)
  have s: "length ''U'' < 2" "\<not> length ''UA400'' < 2" by simp_all
  from cleaned_too_short_error [of "''--''" noNetwork november thisMonthFresh]
       cleaned_too_short_error [of "''--''" noNetwork november thisMonthExhausted]
       cleaned_too_short_error [of "''U''" noNetwork november thisMonthFresh]
       cleaned_too_short_error [of "''UA400''" oneFlight november thisMonthFresh]
       l c s canMakeRequest_fresh canMakeRequest_exhausted
  show ?thesis by simp
qed

text \<open>
  The identifier \<open>--\<close> has two characters and cleans to the empty string; with quota
  left, the service answers \<open>InvalidFormat\<close>, not \<open>IdentifierTooShort\<close>.
\<close>

theorem cleaned_too_short_counterexample:
  "length ''--'' = 2 \<and> length (cleanIdentifier ''--'') = 0
   \<and> fst (getFlightData noNetwork november thisMonthFresh ''--'') = Inl InvalidFormat
   \<and> fst (getFlightData noNetwork november thisMonthFresh ''--'') \<noteq> Inl IdentifierTooShort"
proof -
  have c: "cleanIdentifier ''--'' = []"
    by (simp add: cleanIdentifier_def isAlnum_def isLetter_def isUpper_def isLower_def isDigit_def)
  then have n: "\<not> isFlightNumber (cleanIdentifier ''--'')" "\<not> isTailNumber (cleanIdentifier ''--'')"
    using isFlightNumber_length [of "[]"] isTailNumber_length [of "[]"] by auto
  have "fst (getFlightData noNetwork november thisMonthFresh ''--'') = Inl InvalidFormat"
    using n by (intro getFlightData_invalid canMakeRequest_fresh) simp_all
  with c show ?thesis by simp
qed

text \<open>
  C7 (amended). The quota is consulted before the identifier is cleaned and classified:
  with the quota exhausted, every identifier of at least two characters fails with
  \<open>QuotaExceeded\<close>, whether or not it would classify; an identifier that matches neither
  pattern fails with \<open>InvalidFormat\<close> only when the tracker allows a request.
\<close>

theorem quota_before_classification:
  assumes "2 \<le> length identifier"
  shows "(\<not> fst (canMakeRequest now tr) \<longrightarrow>
            fst (getFlightData get now tr identifier)
              = Inl (QuotaExceeded (count (usage (snd (canMakeRequest now tr))))
                       (monthlyLimit tr)))
       \<and> (fst (canMakeRequest now tr)
            \<and> \<not> isFlightNumber (cleanIdentifier identifier)
            \<and> \<not> isTailNumber (cleanIdentifier identifier) \<longrightarrow>
            fst (getFlightData get now tr identifier) = Inl InvalidFormat)"
  using assms by (simp add: getFlightData_quota_exhausted getFlightData_invalid)

theorem quota_before_classification_witness:
  "fst (getFlightData noNetwork november thisMonthExhausted ''UA400'')
     = Inl (QuotaExceeded 1000 1000)
   \<and> fst (getFlightData noNetwork november thisMonthFresh ''12345'') = Inl InvalidFormat"
proof -
  have a: "2 \<le> length ''UA400''" and b: "2 \<le> length ''12345''" by simp_all
  from quota_before_classification [OF a, of november thisMonthExhausted noNetwork]
       quota_before_classification [OF b, of november thisMonthFresh noNetwork]
       canMakeRequest_fresh canMakeRequest_exhausted digits_not_classified
  show ?thesis by simp
qed

text \<open>
  With the quota exhausted, the identifier \<open>12345\<close>, which matches neither pattern,
  fails with \<open>QuotaExceeded\<close>, not with \<open>InvalidFormat\<close>.
\<close>

theorem classification_before_quota_counterexample:
  "\<not> isFlightNumber (cleanIdentifier ''12345'') \<and> \<not> isTailNumber (cleanIdentifier ''12345'')
   \<and> fst (getFlightData noNetwork november thisMonthExhausted ''12345'')
       = Inl (QuotaExceeded 1000 1000)
   \<and> fst (getFlightData noNetwork november thisMonthExhausted ''12345'') \<noteq> Inl InvalidFormat"
proof -
  have "fst (getFlightData noNetwork november thisMonthExhausted ''12345'')
        = Inl (QuotaExceeded 1000 1000)"
    using getFlightData_quota_exhausted [of "''12345''" november thisMonthExhausted noNetwork]
      canMakeRequest_exhausted by simp
  with digits_not_classified show ?thesis by simp
qed

text \<open>
  C9 (amended). The two patterns overlap, and \<open>getFlightData\<close> tests the flight-number
  pattern first: an identifier that passes validation is looked up as a flight number
  whenever \<open>isFlightNumber\<close> holds, also when \<open>isTailNumber\<close> holds too, and as a tail
  number only when \<open>isFlightNumber\<close> fails and \<open>isTailNumber\<close> holds. So every flight
  returned carries exactly one search type.
\<close>

theorem flight_number_first:
  assumes "2 \<le> length identifier" "fst (canMakeRequest now tr)"
  shows "(isFlightNumber (cleanIdentifier identifier) \<longrightarrow>
            getFlightData get now tr identifier
              = apfst (map_sum getFlightData_catch id)
                  (getFlightByNumber get now (snd (canMakeRequest now tr))
                     (cleanIdentifier identifier)))
       \<and> (\<not> isFlightNumber (cleanIdentifier identifier)
            \<and> isTailNumber (cleanIdentifier identifier) \<longrightarrow>
            getFlightData get now tr identifier
              = apfst (map_sum getFlightData_catch id)
                  (getFlightByTailNumber get now (snd (canMakeRequest now tr))
                     (cleanIdentifier identifier)))
       \<and> (fst (getFlightData get now tr identifier) = Inr (Some f) \<longrightarrow>
            searchType f = Some (if isFlightNumber (cleanIdentifier identifier)
                                 then ''flight_number'' else ''tail_number''))"
proof (intro conjI impI)
  assume "isFlightNumber (cleanIdentifier identifier)"
  with assms show "getFlightData get now tr identifier
              = apfst (map_sum getFlightData_catch id)
                  (getFlightByNumber get now (snd (canMakeRequest now tr))
                     (cleanIdentifier identifier))"
    by (simp add: getFlightData_classified)
next
  assume "\<not> isFlightNumber (cleanIdentifier identifier)
            \<and> isTailNumber (cleanIdentifier identifier)"
  with assms show "getFlightData get now tr identifier
              = apfst (map_sum getFlightData_catch id)
                  (getFlightByTailNumber get now (snd (canMakeRequest now tr))
                     (cleanIdentifier identifier))"
    by (simp add: getFlightData_classified)
next
  assume r: "fst (getFlightData get now tr identifier) = Inr (Some f)"
  have cl: "isFlightNumber (cleanIdentifier identifier) \<or> isTailNumber (cleanIdentifier identifier)"
  proof (rule ccontr)
    assume "\<not> ?thesis"
    with assms have "fst (getFlightData get now tr identifier) = Inl InvalidFormat"
      by (simp add: getFlightData_invalid)
    with r show False by simp
  qed
  show "searchType f = Some (if isFlightNumber (cleanIdentifier identifier)
                                 then ''flight_number'' else ''tail_number'')"
  proof (cases "isFlightNumber (cleanIdentifier identifier)")
    case True
    with r assms cl have "fst (getFlightByNumber get now (snd (canMakeRequest now tr))
                            (cleanIdentifier identifier)) = Inr (Some f)"
      by (simp add: getFlightData_classified map_sum_id_Inr)
    with True show ?thesis by (simp add: getFlightByNumber_searchType)
  next
    case False
    with r assms cl have "fst (getFlightByTailNumber get now (snd (canMakeRequest now tr))
                            (cleanIdentifier identifier)) = Inr (Some f)"
      by (simp add: getFlightData_classified map_sum_id_Inr)
    with False show ?thesis by (simp add: getFlightByTailNumber_searchType)
  qed
qed

theorem flight_number_first_witness:
  "isTailNumber ''UA400''
   \<and> getFlightData oneFlight november thisMonthFresh ''UA400''
       = apfst (map_sum getFlightData_catch id)
           (getFlightByNumber oneFlight november
              (snd (canMakeRequest november thisMonthFresh)) ''UA400'')
   \<and> getFlightData oneFlight november thisMonthFresh ''N300DG''
       = apfst (map_sum getFlightData_catch id)
           (getFlightByTailNumber oneFlight november
              (snd (canMakeRequest november thisMonthFresh)) ''N300DG'')"
proof -
  have a: "2 \<le> length ''UA400''" and b: "2 \<le> length ''N300DG''" by simp_all
  have u: "cleanIdentifier ''UA400'' = ''UA400''" "isFlightNumber ''UA400''" "isTailNumber ''UA400''"
    by code_simp+
  from flight_number_first [OF a canMakeRequest_fresh, of oneFlight]
       flight_number_first [OF b canMakeRequest_fresh, of oneFlight]
       u tail_only
  show ?thesis by simp
qed

text \<open>
  The cleaned identifier \<open>UA400\<close> satisfies both \<open>isFlightNumber\<close> and \<open>isTailNumber\<close>.
\<close>

theorem exclusive_classification_counterexample:
  "cleanIdentifier ''UA400'' = ''UA400'' \<and> isFlightNumber ''UA400'' \<and> isTailNumber ''UA400''"
  by code_simp

subsection \<open>Normalized flights\<close>

text \<open>
  C10 (amended). A normalized flight has an airline name, the upstream operator when
  there is one and \<open>Unknown Airline\<close> otherwise, and departure and arrival airports, each
  the place's name, else its IATA code, else \<open>Unknown\<close>. For a normalized flight the
  private-aviation decision holds exactly when the airline name is the empty string or
  \<open>Unknown Airline\<close>.
\<close>

theorem normalized_names_defined:
  "Option.bind (airline (normalizeFlightData f st)) al_name
     = Some (case operator f of Some s \<Rightarrow> s | None \<Rightarrow> ''Unknown Airline'')
   \<and> Option.bind (departure (normalizeFlightData f st)) airport
     = Some (case Option.bind (origin f) name of
               Some s \<Rightarrow> s
             | None \<Rightarrow> (case Option.bind (origin f) code_iata of
                          Some c \<Rightarrow> c | None \<Rightarrow> ''Unknown''))
   \<and> Option.bind (arrival (normalizeFlightData f st)) airport
     = Some (case Option.bind (destination f) name of
               Some s \<Rightarrow> s
             | None \<Rightarrow> (case Option.bind (destination f) code_iata of
                          Some c \<Rightarrow> c | None \<Rightarrow> ''Unknown''))
   \<and> isPrivateAviation (normalizeFlightData f st)
     = (Option.bind (airline (normalizeFlightData f st)) al_name = Some ''''
        \<or> Option.bind (airline (normalizeFlightData f st)) al_name = Some ''Unknown Airline'')"
  by (simp add: normalizeFlightData_def isPrivateAviation_def nullish_def)

text \<open>
  An upstream flight whose operator is the empty string is normalized to an airline name
  that is empty, not \<open>Unknown Airline\<close>, and is still treated as private aviation.
\<close>

theorem sentinel_only_counterexample:
  "operator emptyOperator = Some ''''
   \<and> isPrivateAviation (normalizeFlightData emptyOperator ''flight_number'')
   \<and> Option.bind (airline (normalizeFlightData emptyOperator ''flight_number'')) al_name
       = Some ''''
   \<and> Option.bind (airline (normalizeFlightData emptyOperator ''flight_number'')) al_name
       \<noteq> Some ''Unknown Airline''"
  by (simp add: emptyOperator_def blankFlight_def normalizeFlightData_def isPrivateAviation_def
        nullish_def)

subsection \<open>The poll cycle\<close>

lemma scanEntries_kept:
  "fst (scanEntries now reg)
     = filter (\<lambda>c. \<not> (hasLanded (snd c) \<and> 10 < updateCount (snd c))) reg"
  by (induction now reg rule: scanEntries.induct) (simp_all add: case_prod_beta Let_def)

lemma scanEntries_toCheck:
  "snd (scanEntries now reg)
     = filter (\<lambda>c. \<not> (hasLanded (snd c) \<and> 10 < updateCount (snd c))
                    \<and> 5 * 60 * 1000 < now - lastUpdated (snd c)) reg"
  by (induction now reg rule: scanEntries.induct) (simp_all add: case_prod_beta Let_def)

lemma setEntry_keys: "map fst (setEntry k t reg) = map fst reg"
  by (induction reg) (auto simp add: setEntry_def)

lemma map_of_setEntry_other: "k' \<noteq> k \<Longrightarrow> map_of (setEntry k t reg) k' = map_of reg k'"
  by (induction reg) (auto simp add: setEntry_def)

lemma map_of_setEntry_same:
  "k \<in> fst ` set reg \<Longrightarrow> map_of (setEntry k t reg) k = Some t"
  by (induction reg) (auto simp add: setEntry_def)

lemma runChecks_Cons:
  "fst (runChecks env ((k, t) # cs) reg)
     = fst (runChecks env cs (setEntry k (fst (checkSingleFlight env k t)) reg))"
  by (simp add: case_prod_beta Let_def)

lemma runChecks_keys: "map fst (fst (runChecks env cs reg)) = map fst reg"
  by (induction cs arbitrary: reg) (auto simp add: case_prod_beta Let_def setEntry_keys)

lemma checkSingleFlight_fetched:
  "fst (snd (checkSingleFlight env key tracking)) = [flightIdentifier tracking]"
  by (simp add: checkSingleFlight_def callGetFlightData_def case_prod_beta Let_def
        split: sum.splits option.splits)

lemma checkSingleFlight_found:
  "svcGetFlightData env key (flightIdentifier tracking) = Inr (Some updatedFlight) \<Longrightarrow>
     lastUpdated (fst (checkSingleFlight env key tracking)) = fetchedAt env key
     \<and> snapshot (fst (checkSingleFlight env key tracking)) = updatedFlight"
  by (simp add: checkSingleFlight_def callGetFlightData_def case_prod_beta Let_def)

lemma runChecks_fetched_by_checks:
  "fst (snd (runChecks env cs reg))
     = concat (map (\<lambda>c. fst (snd (checkSingleFlight env (fst c) (snd c)))) cs)"
  by (induction cs arbitrary: reg) (auto simp add: case_prod_beta Let_def)

lemma runChecks_fetched:
  "fst (snd (runChecks env cs reg)) = map (\<lambda>c. flightIdentifier (snd c)) cs"
  unfolding runChecks_fetched_by_checks
  by (induction cs) (simp_all add: checkSingleFlight_fetched)

lemma runChecks_other:
  "k \<notin> fst ` set cs \<Longrightarrow> map_of (fst (runChecks env cs reg)) k = map_of reg k"
proof (induction cs arbitrary: reg)
  case Nil
  then show ?case by simp
next
  case (Cons c cs)
  obtain k' t' where c: "c = (k', t')" by (cases c)
  with Cons.prems have "k \<noteq> k'" "k \<notin> fst ` set cs" by auto
  with Cons.IH c show ?case
    by (simp only: runChecks_Cons) (simp add: map_of_setEntry_other)
qed

lemma runChecks_checked:
  assumes "distinct (map fst cs)" "(k, t) \<in> set cs" "k \<in> fst ` set reg"
  shows "map_of (fst (runChecks env cs reg)) k = Some (fst (checkSingleFlight env k t))"
  using assms
proof (induction cs arbitrary: reg)
  case Nil
  then show ?case by simp
next
  case (Cons c cs)
  obtain k' t' where c: "c = (k', t')" by (cases c)
  show ?case
  proof (cases "(k, t) = c")
    case True
    with c have eq: "k' = k" "t' = t" by auto
    from Cons.prems(1) c eq have "k \<notin> fst ` set cs" by auto
    then have "map_of (fst (runChecks env cs (setEntry k (fst (checkSingleFlight env k t)) reg))) k
             = map_of (setEntry k (fst (checkSingleFlight env k t)) reg) k"
      by (rule runChecks_other)
    also have "\<dots> = Some (fst (checkSingleFlight env k t))"
      using Cons.prems(3) by (rule map_of_setEntry_same)
    finally show ?thesis using c eq by (simp only: runChecks_Cons)
  next
    case False
    with Cons.prems(2) have mem: "(k, t) \<in> set cs" by auto
    from Cons.prems(1) have d: "distinct (map fst cs)" by simp
    have "k \<in> fst ` set (setEntry k' (fst (checkSingleFlight env k' t')) reg)"
      using Cons.prems(3) setEntry_keys [of k' "fst (checkSingleFlight env k' t')" reg]
      by (metis list.set_map)
    from Cons.IH [OF d mem this] c show ?thesis by (simp only: runChecks_Cons)
  qed
qed

lemma sort_key_take_dominates:
  assumes "c \<in> set (take n (sort_key f xs))" "d \<in> set xs" "d \<notin> set (take n (sort_key f xs))"
  shows "f c \<le> f d"
proof -
  let ?ys = "sort_key f xs"
  have "sorted (map f ?ys)" by simp
  then have s: "sorted (map f (take n ?ys) @ map f (drop n ?ys))"
    by (metis append_take_drop_id map_append)
  have "set ?ys = set (take n ?ys) \<union> set (drop n ?ys)"
    by (metis append_take_drop_id set_append)
  with assms(2,3) have dd: "d \<in> set (drop n ?ys)" by simp
  from s have "\<forall>a\<in>set (map f (take n ?ys)). \<forall>b\<in>set (map f (drop n ?ys)). a \<le> b"
    unfolding sorted_append by blast
  with assms(1) dd show ?thesis by auto
qed

lemma checkFlightUpdates_keys:
  "svcCanMakeRequest env \<Longrightarrow>
     map fst (fst (checkFlightUpdates env reg))
       = map fst (filter (\<lambda>c. \<not> (hasLanded (snd c) \<and> 10 < updateCount (snd c))) reg)"
  by (simp add: checkFlightUpdates_def case_prod_beta Let_def runChecks_keys scanEntries_kept)

lemma checkFlightUpdates_run:
  assumes "svcCanMakeRequest env"
  shows "checkFlightUpdates env reg =
     runChecks env
       (if svcShouldLimitTracking env \<and> 2 < length (snd (scanEntries (currentTime env) reg))
        then take 2 (sort_key (\<lambda>c. - lastUpdated (snd c)) (snd (scanEntries (currentTime env) reg)))
        else snd (scanEntries (currentTime env) reg))
       (fst (scanEntries (currentTime env) reg))"
  using assms by (simp add: checkFlightUpdates_def case_prod_beta Let_def)

lemma filter_key_member:
  assumes "distinct (map fst reg)" "(key, tracking) \<in> set reg"
  shows "(key \<in> fst ` set (filter P reg)) = P (key, tracking)"
proof
  assume "key \<in> fst ` set (filter P reg)"
  then obtain c where c: "c \<in> set reg" "P c" "fst c = key" by auto
  then have "(key, snd c) \<in> set reg" by (metis prod.collapse)
  with assms have "snd c = tracking" by (meson eq_key_imp_eq_value)
  with c show "P (key, tracking)" by (metis prod.collapse)
next
  assume "P (key, tracking)"
  with assms(2) have "(key, tracking) \<in> set (filter P reg)" by simp
  then show "key \<in> fst ` set (filter P reg)" by (metis fst_conv image_eqI)
qed

lemma distinct_keys_filter: "distinct (map fst reg) \<Longrightarrow> distinct (map fst (filter P reg))"
  by (simp add: distinct_map_filter)

lemma distinct_keys_top:
  assumes "distinct (map fst cs)"
  shows "distinct (map fst (take n (sort_key f cs)))"
proof -
  from assms have "distinct cs" "inj_on fst (set cs)" by (simp_all add: distinct_map)
  then have "distinct (map fst (sort_key f cs))" by (simp add: distinct_map)
  then show ?thesis by (simp add: take_map [symmetric])
qed

lemma processed_entries:
  assumes can: "svcCanMakeRequest env" and d: "distinct (map fst reg)"
    and sel: "checkFlightUpdates env reg = runChecks env chosen (fst (scanEntries (currentTime env) reg))"
    and sub: "set chosen \<subseteq> set (snd (scanEntries (currentTime env) reg))"
    and dc: "distinct (map fst chosen)"
  shows "\<forall>c\<in>set chosen. map_of (fst (checkFlightUpdates env reg)) (fst c)
            = Some (fst (checkSingleFlight env (fst c) (snd c)))"
    and "\<forall>c\<in>set (snd (scanEntries (currentTime env) reg)) - set chosen.
            map_of (fst (checkFlightUpdates env reg)) (fst c) = Some (snd c)"
proof -
  let ?kept = "fst (scanEntries (currentTime env) reg)"
  let ?cands = "snd (scanEntries (currentTime env) reg)"
  have dk: "distinct (map fst ?kept)"
    unfolding scanEntries_kept using d by (rule distinct_keys_filter)
  have ck: "set ?cands \<subseteq> set ?kept"
    unfolding scanEntries_kept scanEntries_toCheck by auto
  show "\<forall>c\<in>set chosen. map_of (fst (checkFlightUpdates env reg)) (fst c)
            = Some (fst (checkSingleFlight env (fst c) (snd c)))"
  proof
    fix c assume c: "c \<in> set chosen"
    then have m: "(fst c, snd c) \<in> set chosen" by simp
    from c sub ck have "c \<in> set ?kept" by blast
    then have k: "fst c \<in> fst ` set ?kept" by (rule imageI)
    show "map_of (fst (checkFlightUpdates env reg)) (fst c)
            = Some (fst (checkSingleFlight env (fst c) (snd c)))"
      unfolding sel using dc m k by (rule runChecks_checked)
  qed
  show "\<forall>c\<in>set ?cands - set chosen.
            map_of (fst (checkFlightUpdates env reg)) (fst c) = Some (snd c)"
  proof
    fix c assume c: "c \<in> set ?cands - set chosen"
    with ck have ckept: "(fst c, snd c) \<in> set ?kept" by auto
    have "fst c \<notin> fst ` set chosen"
    proof
      assume "fst c \<in> fst ` set chosen"
      then obtain c' where c': "c' \<in> set chosen" "fst c' = fst c" by auto
      from c'(1) sub ck have "c' \<in> set ?kept" by blast
      then have "(fst c', snd c') \<in> set ?kept" by simp
      with c'(2) have "(fst c, snd c') \<in> set ?kept" by simp
      with dk ckept have "snd c' = snd c" by (meson eq_key_imp_eq_value)
      with c' have "c' = c" by (simp add: prod_eq_iff)
      with c' c show False by simp
    qed
    then have "map_of (fst (checkFlightUpdates env reg)) (fst c) = map_of ?kept (fst c)"
      unfolding sel by (rule runChecks_other)
    also have "\<dots> = Some (snd c)" using dk ckept by (rule map_of_is_SomeI)
    finally show "map_of (fst (checkFlightUpdates env reg)) (fst c) = Some (snd c)" .
  qed
qed

lemma checked_entry_found:
  assumes "\<forall>c\<in>set cs. map_of reg' (fst c) = Some (fst (checkSingleFlight env (fst c) (snd c)))"
  shows "\<forall>c\<in>set cs. \<forall>f.
           svcGetFlightData env (fst c) (flightIdentifier (snd c)) = Inr (Some f) \<longrightarrow>
           (\<exists>t. map_of reg' (fst c) = Some t
                \<and> lastUpdated t = fetchedAt env (fst c) \<and> snapshot t = f)"
  using assms checkSingleFlight_found by blast

lemma fiveStale_fetched:
  "fst (snd (checkFlightUpdates criticalEnv fiveStale)) = [''AA3'', ''AA5'']"
  by (simp add: checkFlightUpdates_def criticalEnv_def fiveStale_def entry_def
        checkSingleFlight_def callGetFlightData_def nowActive_def case_prod_beta Let_def)

lemma fiveStale_after:
  "map_option lastUpdated (map_of (fst (checkFlightUpdates criticalEnv fiveStale)) ''AA3_C1'')
     = Some 600000"
  "map_option lastUpdated (map_of (fst (checkFlightUpdates criticalEnv fiveStale)) ''AA5_C1'')
     = Some 600000"
  "map_of (fst (checkFlightUpdates criticalEnv fiveStale)) ''AA1_C1''
     = Some (entry ''AA1'' 3 0 False)"
  by (simp_all add: checkFlightUpdates_def criticalEnv_def fiveStale_def entry_def
        checkSingleFlight_def callGetFlightData_def nowActive_def tenMinutes_def setEntry_def
        case_prod_beta Let_def)

text \<open>
  C2. In a cycle that starts with \<open>canMakeRequest()\<close> true, an entry of the registry is
  gone afterwards exactly when it has landed and its \<open>updateCount\<close> is greater than 10: an
  entry with \<open>hasLanded\<close> and count 11 is removed, one with count 10 is kept.
\<close>

theorem landed_pruning:
  assumes "svcCanMakeRequest env" "distinct (map fst reg)" "(key, tracking) \<in> set reg"
  shows "(map_of (fst (checkFlightUpdates env reg)) key = None)
         = (hasLanded tracking \<and> 10 < updateCount tracking)"
proof -
  have "(map_of (fst (checkFlightUpdates env reg)) key = None)
        = (key \<notin> fst ` set (fst (checkFlightUpdates env reg)))"
    by (rule map_of_eq_None_iff)
  also have "fst ` set (fst (checkFlightUpdates env reg))
        = set (map fst (fst (checkFlightUpdates env reg)))"
    by simp
  also have "\<dots> = fst ` set (filter (\<lambda>c. \<not> (hasLanded (snd c) \<and> 10 < updateCount (snd c))) reg)"
    unfolding checkFlightUpdates_keys [OF assms(1)] by simp
  finally show ?thesis
    unfolding filter_key_member [OF assms(2,3)] by simp
qed

theorem landed_pruning_witness:
  "hasLanded (entry ''UA400'' 0 11 True) \<and> updateCount (entry ''UA400'' 0 11 True) = 11
   \<and> map_of (fst (checkFlightUpdates quietEnv landedPair)) ''UA400_C1'' = None
   \<and> hasLanded (entry ''DL1'' 0 10 True) \<and> updateCount (entry ''DL1'' 0 10 True) = 10
   \<and> map_of (fst (checkFlightUpdates quietEnv landedPair)) ''DL1_C1'' \<noteq> None"
proof -
  have can: "svcCanMakeRequest quietEnv" by (simp add: quietEnv_def)
  have d: "distinct (map fst landedPair)" by (simp add: landedPair_def)
  have m1: "(''UA400_C1'', entry ''UA400'' 0 11 True) \<in> set landedPair"
    and m2: "(''DL1_C1'', entry ''DL1'' 0 10 True) \<in> set landedPair"
    by (simp_all add: landedPair_def)
  have e: "hasLanded (entry ''UA400'' 0 11 True)" "updateCount (entry ''UA400'' 0 11 True) = 11"
    "hasLanded (entry ''DL1'' 0 10 True)" "updateCount (entry ''DL1'' 0 10 True) = 10"
    by (simp_all add: entry_def)
  from landed_pruning [OF can d m1] landed_pruning [OF can d m2] e
  show ?thesis by simp
qed

text \<open>
  C3 (amended). In a cycle that starts with \<open>canMakeRequest()\<close> true and in which
  \<open>shouldLimitTracking()\<close> is true, let the candidates be the entries that are not due for
  pruning and whose \<open>lastUpdated\<close> is more than five minutes old. With more than two
  candidates, \<open>getFlightData\<close> is called for exactly two of them and for no other entry, no
  other candidate has a greater \<open>lastUpdated\<close> than either, the entries of the two are what
  \<open>checkSingleFlight\<close> makes of them (a flight that the fetch returns becomes the
  snapshot, and \<open>lastUpdated\<close> the time of the fetch), and every other candidate is left in
  the registry as it was. With two or fewer candidates, all of them are fetched.
\<close>

theorem critical_capping:
  assumes can: "svcCanMakeRequest env" and lim: "svcShouldLimitTracking env"
    and d: "distinct (map fst reg)"
    and cands: "cands = filter (\<lambda>c. \<not> (hasLanded (snd c) \<and> 10 < updateCount (snd c))
                                  \<and> 5 * 60 * 1000 < currentTime env - lastUpdated (snd c)) reg"
  shows "(2 < length cands \<longrightarrow>
           (\<exists>chosen. length chosen = 2 \<and> distinct chosen \<and> set chosen \<subseteq> set cands
              \<and> (\<forall>c\<in>set chosen. \<forall>d\<in>set cands - set chosen.
                     lastUpdated (snd d) \<le> lastUpdated (snd c))
              \<and> fst (snd (checkFlightUpdates env reg))
                  = map (\<lambda>c. flightIdentifier (snd c)) chosen
              \<and> (\<forall>c\<in>set chosen. map_of (fst (checkFlightUpdates env reg)) (fst c)
                     = Some (fst (checkSingleFlight env (fst c) (snd c))))
              \<and> (\<forall>c\<in>set chosen. \<forall>f.
                     svcGetFlightData env (fst c) (flightIdentifier (snd c)) = Inr (Some f) \<longrightarrow>
                     (\<exists>t. map_of (fst (checkFlightUpdates env reg)) (fst c) = Some t
                          \<and> lastUpdated t = fetchedAt env (fst c) \<and> snapshot t = f))
              \<and> (\<forall>d\<in>set cands - set chosen.
                     map_of (fst (checkFlightUpdates env reg)) (fst d) = Some (snd d))))
       \<and> (length cands \<le> 2 \<longrightarrow>
            fst (snd (checkFlightUpdates env reg)) = map (\<lambda>c. flightIdentifier (snd c)) cands
            \<and> (\<forall>c\<in>set cands. map_of (fst (checkFlightUpdates env reg)) (fst c)
                   = Some (fst (checkSingleFlight env (fst c) (snd c))))
            \<and> (\<forall>c\<in>set cands. \<forall>f.
                   svcGetFlightData env (fst c) (flightIdentifier (snd c)) = Inr (Some f) \<longrightarrow>
                   (\<exists>t. map_of (fst (checkFlightUpdates env reg)) (fst c) = Some t
                        \<and> lastUpdated t = fetchedAt env (fst c) \<and> snapshot t = f)))"
proof (intro conjI impI)
  let ?kept = "fst (scanEntries (currentTime env) reg)"
  let ?f = "\<lambda>c::string \<times> TrackedFlight. - lastUpdated (snd c)"
  have sc: "snd (scanEntries (currentTime env) reg) = cands"
    unfolding scanEntries_toCheck cands ..
  have dc: "distinct (map fst cands)"
    unfolding cands using d by (rule distinct_keys_filter)
  then have dcs: "distinct cands" by (simp add: distinct_map)
  {
    assume many: "2 < length cands"
    let ?chosen = "take 2 (sort_key ?f cands)"
    have sel: "checkFlightUpdates env reg = runChecks env ?chosen ?kept"
      unfolding checkFlightUpdates_run [OF can] sc using lim many by simp
    have len: "length ?chosen = 2" using many by simp
    have dis: "distinct ?chosen" using dcs by simp
    have sub: "set ?chosen \<subseteq> set cands"
      using set_take_subset [of 2 "sort_key ?f cands"] by simp
    have dom: "\<forall>c\<in>set ?chosen. \<forall>d\<in>set cands - set ?chosen.
                 lastUpdated (snd d) \<le> lastUpdated (snd c)"
    proof (intro ballI)
      fix c d assume "c \<in> set ?chosen" "d \<in> set cands - set ?chosen"
      then have "?f c \<le> ?f d" using sort_key_take_dominates [of c 2 ?f cands d] by simp
      then show "lastUpdated (snd d) \<le> lastUpdated (snd c)" by simp
    qed
    have fetched: "fst (snd (checkFlightUpdates env reg))
                     = map (\<lambda>c. flightIdentifier (snd c)) ?chosen"
      unfolding sel by (rule runChecks_fetched)
    have dck: "distinct (map fst ?chosen)" using dc by (rule distinct_keys_top)
    from sub have sub': "set ?chosen \<subseteq> set (snd (scanEntries (currentTime env) reg))"
      unfolding sc .
    note pe = processed_entries [OF can d sel sub' dck, unfolded sc]
    note found = checked_entry_found [OF pe(1)]
    from len dis sub dom fetched pe(1) found pe(2)
    show "\<exists>chosen. length chosen = 2 \<and> distinct chosen \<and> set chosen \<subseteq> set cands
              \<and> (\<forall>c\<in>set chosen. \<forall>d\<in>set cands - set chosen.
                     lastUpdated (snd d) \<le> lastUpdated (snd c))
              \<and> fst (snd (checkFlightUpdates env reg))
                  = map (\<lambda>c. flightIdentifier (snd c)) chosen
              \<and> (\<forall>c\<in>set chosen. map_of (fst (checkFlightUpdates env reg)) (fst c)
                     = Some (fst (checkSingleFlight env (fst c) (snd c))))
              \<and> (\<forall>c\<in>set chosen. \<forall>f.
                     svcGetFlightData env (fst c) (flightIdentifier (snd c)) = Inr (Some f) \<longrightarrow>
                     (\<exists>t. map_of (fst (checkFlightUpdates env reg)) (fst c) = Some t
                          \<and> lastUpdated t = fetchedAt env (fst c) \<and> snapshot t = f))
              \<and> (\<forall>d\<in>set cands - set chosen.
                     map_of (fst (checkFlightUpdates env reg)) (fst d) = Some (snd d))"
      by (intro exI [of _ ?chosen] conjI)
  }
  {
    assume few: "length cands \<le> 2"
    have sel: "checkFlightUpdates env reg = runChecks env cands ?kept"
      unfolding checkFlightUpdates_run [OF can] sc using few by simp
    show "fst (snd (checkFlightUpdates env reg)) = map (\<lambda>c. flightIdentifier (snd c)) cands"
      unfolding sel by (rule runChecks_fetched)
    have sub': "set cands \<subseteq> set (snd (scanEntries (currentTime env) reg))"
      unfolding sc by simp
    note pe = processed_entries(1) [OF can d sel sub' dc]
    from pe
    show "\<forall>c\<in>set cands. map_of (fst (checkFlightUpdates env reg)) (fst c)
                   = Some (fst (checkSingleFlight env (fst c) (snd c)))" .
    from checked_entry_found [OF pe]
    show "\<forall>c\<in>set cands. \<forall>f.
                   svcGetFlightData env (fst c) (flightIdentifier (snd c)) = Inr (Some f) \<longrightarrow>
                   (\<exists>t. map_of (fst (checkFlightUpdates env reg)) (fst c) = Some t
                        \<and> lastUpdated t = fetchedAt env (fst c) \<and> snapshot t = f)" .
  }
qed

theorem critical_capping_witness:
  "svcCanMakeRequest criticalEnv \<and> svcShouldLimitTracking criticalEnv
   \<and> distinct (map fst fiveStale) \<and> length fiveStale = 5
   \<and> (\<exists>chosen. length chosen = 2 \<and> distinct chosen \<and> set chosen \<subseteq> set fiveStale
         \<and> (\<forall>c\<in>set chosen. \<forall>d\<in>set fiveStale - set chosen.
                lastUpdated (snd d) \<le> lastUpdated (snd c))
         \<and> fst (snd (checkFlightUpdates criticalEnv fiveStale))
             = map (\<lambda>c. flightIdentifier (snd c)) chosen
         \<and> (\<forall>c\<in>set chosen.
                \<exists>t. map_of (fst (checkFlightUpdates criticalEnv fiveStale)) (fst c) = Some t
                     \<and> lastUpdated t = 600000 \<and> snapshot t = activeFlight)
         \<and> (\<forall>d\<in>set fiveStale - set chosen.
                map_of (fst (checkFlightUpdates criticalEnv fiveStale)) (fst d) = Some (snd d)))
   \<and> fst (snd (checkFlightUpdates criticalEnv fiveStale)) = [''AA3'', ''AA5'']
   \<and> map_option lastUpdated (map_of (fst (checkFlightUpdates criticalEnv fiveStale)) ''AA3_C1'')
       = Some 600000
   \<and> map_option lastUpdated (map_of (fst (checkFlightUpdates criticalEnv fiveStale)) ''AA5_C1'')
       = Some 600000
   \<and> map_of (fst (checkFlightUpdates criticalEnv fiveStale)) ''AA1_C1''
       = Some (entry ''AA1'' 3 0 False)
   \<and> fst (snd (checkFlightUpdates criticalEnv landedPair)) = [''DL1'']"
proof -
  let ?stale = "\<lambda>c::string \<times> TrackedFlight.
                  \<not> (hasLanded (snd c) \<and> 10 < updateCount (snd c))
                  \<and> 5 * 60 * 1000 < currentTime criticalEnv - lastUpdated (snd c)"
  have can: "svcCanMakeRequest criticalEnv" and lim: "svcShouldLimitTracking criticalEnv"
    by (simp_all add: criticalEnv_def)
  have d5: "distinct (map fst fiveStale)" and l5: "length fiveStale = 5"
    by (simp_all add: fiveStale_def)
  have d2: "distinct (map fst landedPair)" by (simp add: landedPair_def)
  have c5: "filter ?stale fiveStale = fiveStale"
    by (simp add: fiveStale_def criticalEnv_def entry_def)
  have c2: "filter ?stale landedPair = [(''DL1_C1'', entry ''DL1'' 0 10 True)]"
    by (simp add: landedPair_def criticalEnv_def entry_def)
  have many: "2 < length fiveStale" using l5 by simp
  have svc: "\<And>k i. svcGetFlightData criticalEnv k i = Inr (Some activeFlight)"
    and at: "\<And>k. fetchedAt criticalEnv k = 600000"
    by (simp_all add: criticalEnv_def nowActive_def tenMinutes_def)
  from critical_capping [OF can lim d5 c5 [symmetric]] many
  obtain chosen where ch: "length chosen = 2" "distinct chosen" "set chosen \<subseteq> set fiveStale"
      "\<forall>c\<in>set chosen. \<forall>d\<in>set fiveStale - set chosen.
                lastUpdated (snd d) \<le> lastUpdated (snd c)"
      "fst (snd (checkFlightUpdates criticalEnv fiveStale))
             = map (\<lambda>c. flightIdentifier (snd c)) chosen"
      "\<forall>c\<in>set chosen. \<forall>f.
         svcGetFlightData criticalEnv (fst c) (flightIdentifier (snd c)) = Inr (Some f) \<longrightarrow>
         (\<exists>t. map_of (fst (checkFlightUpdates criticalEnv fiveStale)) (fst c) = Some t
              \<and> lastUpdated t = fetchedAt criticalEnv (fst c) \<and> snapshot t = f)"
      "\<forall>d\<in>set fiveStale - set chosen.
                map_of (fst (checkFlightUpdates criticalEnv fiveStale)) (fst d) = Some (snd d)"
    by blast
  from ch(6) have upd: "\<forall>c\<in>set chosen.
                \<exists>t. map_of (fst (checkFlightUpdates criticalEnv fiveStale)) (fst c) = Some t
                     \<and> lastUpdated t = 600000 \<and> snapshot t = activeFlight"
    unfolding svc at by blast
  from ch(1-5) upd ch(7)
  have five: "\<exists>chosen. length chosen = 2 \<and> distinct chosen \<and> set chosen \<subseteq> set fiveStale
         \<and> (\<forall>c\<in>set chosen. \<forall>d\<in>set fiveStale - set chosen.
                lastUpdated (snd d) \<le> lastUpdated (snd c))
         \<and> fst (snd (checkFlightUpdates criticalEnv fiveStale))
             = map (\<lambda>c. flightIdentifier (snd c)) chosen
         \<and> (\<forall>c\<in>set chosen.
                \<exists>t. map_of (fst (checkFlightUpdates criticalEnv fiveStale)) (fst c) = Some t
                     \<and> lastUpdated t = 600000 \<and> snapshot t = activeFlight)
         \<and> (\<forall>d\<in>set fiveStale - set chosen.
                map_of (fst (checkFlightUpdates criticalEnv fiveStale)) (fst d) = Some (snd d))"
    by (intro exI [of _ chosen] conjI)
  from critical_capping [OF can lim d2 c2 [symmetric]]
  have "fst (snd (checkFlightUpdates criticalEnv landedPair))
          = map (\<lambda>c. flightIdentifier (snd c)) [(''DL1_C1'', entry ''DL1'' 0 10 True)]"
    by simp
  then have one: "fst (snd (checkFlightUpdates criticalEnv landedPair)) = [''DL1'']"
    by (simp add: entry_def)
  from can lim d5 l5 five fiveStale_fetched fiveStale_after one show ?thesis by (intro conjI)
qed

text \<open>
  With \<open>canMakeRequest()\<close> false the cycle fetches none of five stale candidates, although
  \<open>shouldLimitTracking()\<close> is true. And of three stale entries, the one with the greatest
  \<open>lastUpdated\<close> is due for pruning: it is removed, not fetched, and the other two are
  fetched.
\<close>

theorem critical_capping_counterexample:
  "svcShouldLimitTracking pausedEnv \<and> svcCanMakeRequest pausedEnv = False
   \<and> snd (scanEntries (currentTime pausedEnv) fiveStale) = fiveStale
   \<and> length fiveStale = 5
   \<and> checkFlightUpdates pausedEnv fiveStale = (fiveStale, [], [])
   \<and> svcShouldLimitTracking criticalEnv \<and> svcCanMakeRequest criticalEnv
   \<and> 5 * 60 * 1000 < currentTime criticalEnv - lastUpdated (entry ''AA1'' 1 0 False)
   \<and> 5 * 60 * 1000 < currentTime criticalEnv - lastUpdated (entry ''AA2'' 2 0 False)
   \<and> 5 * 60 * 1000 < currentTime criticalEnv - lastUpdated (entry ''AA3'' 3 11 True)
   \<and> fst (snd (checkFlightUpdates criticalEnv staleLanded)) = [''AA1'', ''AA2'']
   \<and> map_of (fst (checkFlightUpdates criticalEnv staleLanded)) ''AA3_C1'' = None"
  by (simp add: checkFlightUpdates_def pausedEnv_def criticalEnv_def fiveStale_def
        staleLanded_def entry_def checkSingleFlight_def callGetFlightData_def nowActive_def
        setEntry_def case_prod_beta Let_def)

text \<open>
  C4. When \<open>canMakeRequest()\<close> is false at the start of \<open>checkFlightUpdates\<close>, the cycle
  returns the registry as it was, entries due for pruning included, and neither fetches
  a flight nor sends an update.
\<close>

theorem exhausted_quota_skips_cycle:
  "\<not> svcCanMakeRequest env \<Longrightarrow> checkFlightUpdates env reg = (reg, [], [])"
  by (simp add: checkFlightUpdates_def)

theorem exhausted_quota_skips_cycle_witness:
  "svcCanMakeRequest pausedEnv = False
   \<and> checkFlightUpdates pausedEnv landedPair = (landedPair, [], [])"
proof -
  have h: "\<not> svcCanMakeRequest pausedEnv" by (simp add: pausedEnv_def)
  from h exhausted_quota_skips_cycle [OF h, of landedPair] show ?thesis by simp
qed

text \<open>
  C8 (amended). \<open>checkSingleFlight\<close> sets \<open>lastUpdated\<close> to the time read after the
  fetch only when the fetch returns a flight; then the snapshot is replaced too. When the
  fetch returns nothing or throws, the entry is left as it was, \<open>lastUpdated\<close> included,
  and no update is sent.
\<close>

theorem lastUpdated_on_fetch:
  "(svcGetFlightData env key (flightIdentifier tracking) = Inr (Some updatedFlight)
      \<longrightarrow> lastUpdated (fst (checkSingleFlight env key tracking)) = fetchedAt env key
          \<and> snapshot (fst (checkSingleFlight env key tracking)) = updatedFlight)
   \<and> (svcGetFlightData env key (flightIdentifier tracking) = Inr None
      \<longrightarrow> checkSingleFlight env key tracking = (tracking, [flightIdentifier tracking], []))
   \<and> (svcGetFlightData env key (flightIdentifier tracking) = Inl e
      \<longrightarrow> checkSingleFlight env key tracking = (tracking, [flightIdentifier tracking], []))"
  by (simp add: checkSingleFlight_def callGetFlightData_def case_prod_beta Let_def)

theorem lastUpdated_on_fetch_witness:
  "lastUpdated (fst (checkSingleFlight criticalEnv ''UA400_C1'' (entry ''UA400'' 0 0 False))) = 600000
   \<and> checkSingleFlight notFoundEnv ''UA400_C1'' (entry ''UA400'' 0 0 False)
       = (entry ''UA400'' 0 0 False, [''UA400''], [])"
proof -
  have a: "svcGetFlightData criticalEnv ''UA400_C1'' (flightIdentifier (entry ''UA400'' 0 0 False))
           = Inr (Some activeFlight)"
    by (simp add: criticalEnv_def nowActive_def)
  have b: "svcGetFlightData notFoundEnv ''UA400_C1'' (flightIdentifier (entry ''UA400'' 0 0 False))
           = Inr None"
    by (simp add: notFoundEnv_def notFound_def)
  have t: "fetchedAt criticalEnv ''UA400_C1'' = 600000"
    by (simp add: criticalEnv_def tenMinutes_def)
  have i: "flightIdentifier (entry ''UA400'' 0 0 False) = ''UA400''"
    by (simp add: entry_def)
  from lastUpdated_on_fetch [of criticalEnv "''UA400_C1''" "entry ''UA400'' 0 0 False" activeFlight]
       lastUpdated_on_fetch [of notFoundEnv "''UA400_C1''" "entry ''UA400'' 0 0 False"]
       a b t i
  show ?thesis by simp
qed

text \<open>
  A fetch that finds nothing, and one that throws, leave \<open>lastUpdated\<close> at its old value
  and not at the time of the attempt.
\<close>

theorem lastUpdated_not_found_counterexample:
  "svcGetFlightData notFoundEnv ''UA400_C1'' ''UA400'' = Inr None
   \<and> fetchedAt notFoundEnv ''UA400_C1'' = 600000
   \<and> lastUpdated (fst (checkSingleFlight notFoundEnv ''UA400_C1'' (entry ''UA400'' 0 0 False))) = 0
   \<and> lastUpdated (fst (checkSingleFlight notFoundEnv ''UA400_C1'' (entry ''UA400'' 0 0 False)))
       \<noteq> fetchedAt notFoundEnv ''UA400_C1''
   \<and> svcGetFlightData failingEnv ''UA400_C1'' ''UA400'' = Inl (TransportError (Some 500))
   \<and> lastUpdated (fst (checkSingleFlight failingEnv ''UA400_C1'' (entry ''UA400'' 0 0 False)))
       \<noteq> fetchedAt failingEnv ''UA400_C1''"
  by (simp add: checkSingleFlight_def callGetFlightData_def notFoundEnv_def notFound_def
        failingEnv_def failing_def tenMinutes_def entry_def)

end
